theory Spec2Isabelle
  imports Complex_Main "HOL-Library.Sublist"
begin

section \<open>System controller: cooldown gate and dispatch\<close>

text \<open>
  Source: \<^verbatim>\<open>modules/system_controller.py\<close>, class \<^verbatim>\<open>SystemController\<close>.

  The host-level actions are the methods of the class; the two tables map a key string to
  one of them. What a method does on the host is outside the model: an invocation is
  recorded in the trace \<open>invoked\<close>, and whether the call raises is given by the
  environment \<open>raises\<close> (the message of the exception, if any).

  Time stamps are the values of \<^verbatim>\<open>time.time()\<close>, modelled as real numbers; the
  reading of the clock is an argument \<open>now\<close> of each operation that reads it.
\<close>

datatype action =
    close_application | stop_action | volume_up | take_screenshot | confirm_action
  | mouse_click | open_browser | close_browser | volume_down | mute_audio | unmute_audio
  | open_calculator | open_notepad | minimize_window | maximize_window | switch_window
  | scroll_up | scroll_down | zoom_in | zoom_out | greeting | goodbye

datatype log_entry = Info string | Error string

record system_controller =
  gesture_actions :: "string \<rightharpoonup> action"
  voice_actions :: "string \<rightharpoonup> action"
  last_action_time :: "string \<rightharpoonup> real"
  action_cooldown :: real
  invoked :: "action list"
  logger :: "log_entry list"

definition default_gesture_actions :: "string \<rightharpoonup> action" where
  "default_gesture_actions = map_of
     [(''fist'', close_application),
      (''palm'', stop_action),
      (''thumbs_up'', volume_up),
      (''peace'', take_screenshot),
      (''ok'', confirm_action),
      (''point'', mouse_click)]"

definition default_voice_actions :: "string \<rightharpoonup> action" where
  "default_voice_actions = map_of
     [(''open_browser'', open_browser),
      (''close_browser'', close_browser),
      (''volume_up'', volume_up),
      (''volume_down'', volume_down),
      (''mute_audio'', mute_audio),
      (''unmute_audio'', unmute_audio),
      (''screenshot'', take_screenshot),
      (''open_calculator'', open_calculator),
      (''open_notepad'', open_notepad),
      (''minimize_window'', minimize_window),
      (''maximize_window'', maximize_window),
      (''alt_tab'', switch_window),
      (''scroll_up'', scroll_up),
      (''scroll_down'', scroll_down),
      (''zoom_in'', zoom_in),
      (''zoom_out'', zoom_out),
      (''greeting'', greeting),
      (''goodbye'', goodbye)]"

text \<open>\<^verbatim>\<open>SystemController.__init__\<close>: both tables filled, no time stamp, cooldown 1.0 s.\<close>

definition init_controller :: system_controller where
  "init_controller =
     \<lparr> gesture_actions = default_gesture_actions,
       voice_actions = default_voice_actions,
       last_action_time = Map.empty,
       action_cooldown = 1,
       invoked = [],
       logger = [] \<rparr>"

text \<open>
  \<^verbatim>\<open>can_execute_action\<close>: the stored time stamp is compared only when the key is
  present; the early \<^verbatim>\<open>return False\<close> leaves the object as it is, every other path
  stores \<open>now\<close> under the key.
\<close>

definition can_execute_action ::
  "real \<Rightarrow> string \<Rightarrow> system_controller \<Rightarrow> bool \<times> system_controller" where
  "can_execute_action now action_name s =
     (if (case last_action_time s action_name of
            Some t \<Rightarrow> now - t < action_cooldown s
          | None \<Rightarrow> False)
      then (False, s)
      else (True, s\<lparr> last_action_time := (last_action_time s)(action_name \<mapsto> now) \<rparr>))"

text \<open>
  The body of the \<^verbatim>\<open>try\<close> in both dispatch methods: call the action, then log; an
  exception of the call is caught and logged as an error.
\<close>

definition run_action ::
  "(action \<Rightarrow> string option) \<Rightarrow> string \<Rightarrow> string \<Rightarrow> action \<Rightarrow> system_controller
     \<Rightarrow> system_controller" where
  "run_action raises ok_msg err_msg a s =
     (let s1 = s\<lparr> invoked := invoked s @ [a] \<rparr> in
      case raises a of
        None \<Rightarrow> s1\<lparr> logger := logger s1 @ [Info ok_msg] \<rparr>
      | Some e \<Rightarrow> s1\<lparr> logger := logger s1 @ [Error (err_msg @ e)] \<rparr>)"

text \<open>
  \<^verbatim>\<open>execute_gesture_command\<close>: the key of the cooldown is the gesture label itself. The
  \<^verbatim>\<open>and\<close> is short-circuit: the gate is asked only for a label of the table.
\<close>

definition execute_gesture_command ::
  "(action \<Rightarrow> string option) \<Rightarrow> real \<Rightarrow> string \<Rightarrow> system_controller \<Rightarrow> system_controller" where
  "execute_gesture_command raises now gesture s =
     (case gesture_actions s gesture of
        None \<Rightarrow> s
      | Some a \<Rightarrow>
          (case can_execute_action now gesture s of
             (False, s1) \<Rightarrow> s1
           | (True, s1) \<Rightarrow>
               run_action raises (''Executed gesture action: '' @ gesture)
                 (''Error executing gesture '' @ gesture @ '': '') a s1))"

text \<open>\<^verbatim>\<open>execute_voice_command\<close>: the key of the cooldown is the command string.\<close>

definition execute_voice_command ::
  "(action \<Rightarrow> string option) \<Rightarrow> real \<Rightarrow> string \<Rightarrow> system_controller \<Rightarrow> system_controller" where
  "execute_voice_command raises now command s =
     (case voice_actions s command of
        None \<Rightarrow> s
      | Some a \<Rightarrow>
          (case can_execute_action now command s of
             (False, s1) \<Rightarrow> s1
           | (True, s1) \<Rightarrow>
               run_action raises (''Executed voice command: '' @ command)
                 (''Error executing voice command '' @ command @ '': '') a s1))"

text \<open>
  The two producer loops of \<^verbatim>\<open>main.py\<close> hand the controller either a gesture label
  or a voice command string. An event names which entry point is called; \<open>event_key\<close>
  is the string that entry point passes to \<^verbatim>\<open>can_execute_action\<close>, and
  \<open>event_action\<close> the action its table resolves the string to.
\<close>

datatype event = GestureEvent string | VoiceEvent string

fun event_key :: "event \<Rightarrow> string" where
  "event_key (GestureEvent g) = g"
| "event_key (VoiceEvent c) = c"

fun event_action :: "system_controller \<Rightarrow> event \<Rightarrow> action option" where
  "event_action s (GestureEvent g) = gesture_actions s g"
| "event_action s (VoiceEvent c) = voice_actions s c"

fun dispatch ::
  "(action \<Rightarrow> string option) \<Rightarrow> real \<Rightarrow> event \<Rightarrow> system_controller \<Rightarrow> system_controller" where
  "dispatch raises now (GestureEvent g) s = execute_gesture_command raises now g s"
| "dispatch raises now (VoiceEvent c) s = execute_voice_command raises now c s"

text \<open>
  A key is admissible at \<open>now\<close> when the gate would admit it: no time stamp is stored
  for it, or the stored one is at least one cooldown old.
\<close>

definition admissible :: "system_controller \<Rightarrow> string \<Rightarrow> real \<Rightarrow> bool" where
  "admissible s k now =
     (case last_action_time s k of
        None \<Rightarrow> True
      | Some t \<Rightarrow> action_cooldown s \<le> now - t)"

section \<open>Gesture recogniser: classification and smoothing\<close>

text \<open>
  Source: \<^verbatim>\<open>modules/gesture_recognition.py\<close>, class \<^verbatim>\<open>GestureRecognizer\<close>.

  The classifier is an opaque scikit-learn object: its two methods are functions of the
  feature vector that either raise or return an array. \<^verbatim>\<open>predict(features)[0]\<close>
  and \<^verbatim>\<open>np.max(predict_proba(features))\<close> raise on an empty array.
\<close>

datatype exn =
    ValueError | IndexError | TypeError | AttributeError | NotFittedError | KeyboardInterrupt

record classifier =
  predict :: "real list \<Rightarrow> exn + int list"
  predict_proba :: "real list \<Rightarrow> exn + real list"

record gesture_recognizer =
  classifier :: "classifier option"
  gesture_buffer :: "string list"
  buffer_size :: int

definition GESTURE_THRESHOLD :: real where
  "GESTURE_THRESHOLD = 8 / 10"

definition GESTURE_SMOOTHING :: int where
  "GESTURE_SMOOTHING = 5"

definition gesture_labels :: "int \<rightharpoonup> string" where
  "gesture_labels = map_of
     [(0, ''fist''),
      (1, ''palm''),
      (2, ''thumbs_up''),
      (3, ''peace''),
      (4, ''ok''),
      (5, ''point'')]"

text \<open>\<^verbatim>\<open>GestureRecognizer.__init__\<close>, with the classifier that \<^verbatim>\<open>load_model\<close> left.\<close>

definition init_recognizer :: "classifier option \<Rightarrow> gesture_recognizer" where
  "init_recognizer clf =
     \<lparr> classifier = clf, gesture_buffer = [], buffer_size = GESTURE_SMOOTHING \<rparr>"

definition index0 :: "'a list \<Rightarrow> exn + 'a" where
  "index0 xs = (case xs of [] \<Rightarrow> Inl IndexError | x # _ \<Rightarrow> Inr x)"

definition np_max :: "real list \<Rightarrow> exn + real" where
  "np_max xs = (case xs of [] \<Rightarrow> Inl ValueError | x # ys \<Rightarrow> Inr (fold max ys x))"

text \<open>The body of the \<^verbatim>\<open>try\<close> of \<^verbatim>\<open>classify_gesture\<close>: the first exception ends it.\<close>

definition classify_try :: "classifier \<Rightarrow> real list \<Rightarrow> exn + (string \<times> real)" where
  "classify_try clf features =
     (case predict clf features of
        Inl e \<Rightarrow> Inl e
      | Inr predictions \<Rightarrow>
     (case index0 predictions of
        Inl e \<Rightarrow> Inl e
      | Inr prediction \<Rightarrow>
     (case predict_proba clf features of
        Inl e \<Rightarrow> Inl e
      | Inr probabilities \<Rightarrow>
     (case np_max probabilities of
        Inl e \<Rightarrow> Inl e
      | Inr confidence \<Rightarrow>
          if confidence > GESTURE_THRESHOLD
          then Inr (case gesture_labels prediction of
                      Some label \<Rightarrow> label
                    | None \<Rightarrow> ''unknown'',
                    confidence)
          else Inr (''none'', confidence)))))"

text \<open>
  \<^verbatim>\<open>classify_gesture\<close>: \<open>Inl\<close> would be an exception that leaves the method. The
  bare \<^verbatim>\<open>except:\<close> turns every exception of the body into \<^verbatim>\<open>('none', 0.0)\<close>.
\<close>

definition classify_gesture :: "gesture_recognizer \<Rightarrow> real list \<Rightarrow> exn + (string \<times> real)" where
  "classify_gesture r landmarks =
     (case classifier r of
        None \<Rightarrow> Inr (''none'', 0)
      | Some clf \<Rightarrow>
          (case classify_try clf landmarks of
             Inl e \<Rightarrow> Inr (''none'', 0)
           | Inr result \<Rightarrow> Inr result))"

text \<open>
  The feature vector of one hand: 21 landmarks with three coordinates each
  (\<^verbatim>\<open>extract_landmarks\<close>).
\<close>

definition expected_features :: nat where
  "expected_features = 3 * 21"

text \<open>
  A classifier as \<^verbatim>\<open>train_gestures.py\<close> fits one: both methods raise
  \<^verbatim>\<open>ValueError\<close> on a vector whose length is not the number of features it was fitted
  on, as scikit-learn does; on a vector of the right length this one answers a fixed class
  label and fixed class probabilities. The training script knows the labels 0 to 7, the
  recogniser the labels 0 to 5.
\<close>

definition fitted_classifier :: "int \<Rightarrow> real list \<Rightarrow> classifier" where
  "fitted_classifier label probabilities =
     \<lparr> predict = (\<lambda>features.
          if length features \<noteq> expected_features then Inl ValueError else Inr [label]),
       predict_proba = (\<lambda>features.
          if length features \<noteq> expected_features then Inl ValueError
          else Inr probabilities) \<rparr>"

text \<open>
  \<^verbatim>\<open>set(self.gesture_buffer)\<close> inserts the labels in list order, and inserting a label
  again changes nothing: the set that is built, and so the order in which it is iterated,
  is a function of the labels in order of first occurrence. Which function depends on
  the hash values of the strings, which Python does not fix; it is the parameter
  \<open>set_iter\<close> of the model. An order is admissible when it enumerates exactly the
  given distinct labels, each once.
\<close>

fun first_seen :: "'a list \<Rightarrow> 'a list" where
  "first_seen [] = []"
| "first_seen (x # xs) = x # filter (\<lambda>y. y \<noteq> x) (first_seen xs)"

definition py_set :: "('a list \<Rightarrow> 'a list) \<Rightarrow> 'a list \<Rightarrow> 'a list" where
  "py_set set_iter xs = set_iter (first_seen xs)"

definition admissible_order :: "('a list \<Rightarrow> 'a list) \<Rightarrow> bool" where
  "admissible_order set_iter =
     (\<forall>ys. distinct ys \<longrightarrow> distinct (set_iter ys) \<and> set (set_iter ys) = set ys)"

text \<open>
  \<^verbatim>\<open>max(iterable, key=...)\<close>: the running maximum is replaced only by an element whose
  key is strictly greater, so the first of several maximal elements is returned; an empty
  iterable raises \<^verbatim>\<open>ValueError\<close>. \<open>first_max key xs w\<close> says that \<open>w\<close> is that
  element of \<open>xs\<close>: every element before it has a smaller key, none after it a greater.
\<close>

fun max_from :: "('a \<Rightarrow> nat) \<Rightarrow> 'a \<Rightarrow> 'a list \<Rightarrow> 'a" where
  "max_from key best [] = best"
| "max_from key best (y # ys) = max_from key (if key y > key best then y else best) ys"

definition first_max :: "('a \<Rightarrow> nat) \<Rightarrow> 'a list \<Rightarrow> 'a \<Rightarrow> bool" where
  "first_max key xs w =
     (\<exists>before after. xs = before @ w # after
        \<and> (\<forall>l \<in> set before. key l < key w)
        \<and> (\<forall>l \<in> set after. key l \<le> key w))"

definition py_max_key :: "('a \<Rightarrow> nat) \<Rightarrow> 'a list \<Rightarrow> exn + 'a" where
  "py_max_key key xs = (case xs of [] \<Rightarrow> Inl ValueError | x # ys \<Rightarrow> Inr (max_from key x ys))"

text \<open>
  \<^verbatim>\<open>smooth_gesture\<close>: append, drop the oldest label when the buffer is longer than
  \<^verbatim>\<open>buffer_size\<close>, then vote when at least three labels are held. The buffer is
  updated before \<^verbatim>\<open>max\<close> runs, so the new state is returned beside the result.
\<close>

definition smooth_gesture ::
  "(string list \<Rightarrow> string list) \<Rightarrow> string \<Rightarrow> gesture_recognizer
     \<Rightarrow> (exn + string) \<times> gesture_recognizer" where
  "smooth_gesture set_iter gesture r =
     (let appended = gesture_buffer r @ [gesture];
          buf = (if int (length appended) > buffer_size r then tl appended else appended)
      in (if length buf \<ge> 3
          then py_max_key (count_list buf) (py_set set_iter buf)
          else Inr gesture,
          r\<lparr> gesture_buffer := buf \<rparr>))"

text \<open>The recogniser after a sequence of pushes, oldest first.\<close>

definition pushed ::
  "(string list \<Rightarrow> string list) \<Rightarrow> gesture_recognizer \<Rightarrow> string list \<Rightarrow> gesture_recognizer" where
  "pushed set_iter r gestures = foldl (\<lambda>r' g. snd (smooth_gesture set_iter g r')) r gestures"

text \<open>
  The specification's reading of the vote, for comparison with the code: the labels of
  the window are considered most recently seen first, so that of several labels with
  the highest count the most recently seen one is chosen.
\<close>

definition spec_stabilized :: "string list \<Rightarrow> exn + string" where
  "spec_stabilized buf = py_max_key (count_list buf) (first_seen (rev buf))"

section \<open>Voice command handler: phrase mapping\<close>

text \<open>
  Source: \<^verbatim>\<open>modules/voice_commands.py\<close>, class \<^verbatim>\<open>VoiceCommandHandler\<close>.

  \<^verbatim>\<open>voice_commands\<close> is a dictionary iterated in insertion order: an association list
  with distinct keys. \<^verbatim>\<open>phrase in spoken_text\<close> on strings is containment as a
  contiguous run of characters, \<^const>\<open>sublist\<close>. \<^verbatim>\<open>str.lower\<close> is modelled on ASCII
  text: the letters A to Z are mapped to a to z, every other character is kept.
\<close>

definition default_voice_commands :: "(string \<times> string) list" where
  "default_voice_commands =
     [(''open browser'', ''open_browser''),
      (''close browser'', ''close_browser''),
      (''volume up'', ''volume_up''),
      (''volume down'', ''volume_down''),
      (''mute'', ''mute_audio''),
      (''unmute'', ''unmute_audio''),
      (''take screenshot'', ''screenshot''),
      (''open calculator'', ''open_calculator''),
      (''open notepad'', ''open_notepad''),
      (''minimize window'', ''minimize_window''),
      (''maximize window'', ''maximize_window''),
      (''switch window'', ''alt_tab''),
      (''scroll up'', ''scroll_up''),
      (''scroll down'', ''scroll_down''),
      (''zoom in'', ''zoom_in''),
      (''zoom out'', ''zoom_out''),
      (''hello system'', ''greeting''),
      (''goodbye system'', ''goodbye'')]"

definition lower_char :: "char \<Rightarrow> char" where
  "lower_char c =
     (if (65::nat) \<le> of_char c \<and> of_char c \<le> (90::nat)
      then char_of (of_char c + (32::nat))
      else c)"

definition lower :: "string \<Rightarrow> string" where
  "lower text = map lower_char text"

fun process_command :: "(string \<times> string) list \<Rightarrow> string \<Rightarrow> string option" where
  "process_command [] spoken_text = None"
| "process_command ((phrase, command) # rest) spoken_text =
     (if sublist phrase spoken_text then Some command
      else process_command rest spoken_text)"

text \<open>
  \<^verbatim>\<open>listen_for_command\<close>, from the outcome of the speech recogniser on: the recognised
  text is lower-cased here, before \<^verbatim>\<open>process_command\<close> sees it; the three exceptions
  of the recogniser give \<^verbatim>\<open>None\<close>.
\<close>

datatype recognition =
  Recognized string | WaitTimeoutError | UnknownValueError | RequestError string

definition listen_for_command :: "(string \<times> string) list \<Rightarrow> recognition \<Rightarrow> string option" where
  "listen_for_command voice_commands heard =
     (case heard of
        Recognized text \<Rightarrow> process_command voice_commands (lower text)
      | WaitTimeoutError \<Rightarrow> None
      | UnknownValueError \<Rightarrow> None
      | RequestError e \<Rightarrow> None)"

section \<open>Cooldown gate\<close>

text \<open>
  C2. For every action token, admission time \<open>now\<close> and cooldown \<open>d\<close>:
  \<^verbatim>\<open>can_execute_action\<close> returns true and records \<open>now\<close> as the token's last-execution
  time stamp when the token has no recorded time stamp or when \<open>now - lastExecuted \<ge> d\<close>;
  it returns false and leaves the whole state unchanged when \<open>now - lastExecuted < d\<close>.
\<close>

theorem can_execute_action_admit_or_reject:
  "(last_action_time s token = None \<or>
      (\<exists>t. last_action_time s token = Some t \<and> now - t \<ge> action_cooldown s)
    \<longrightarrow> can_execute_action now token s =
          (True, s\<lparr> last_action_time := (last_action_time s)(token \<mapsto> now) \<rparr>))
   \<and> ((\<exists>t. last_action_time s token = Some t \<and> now - t < action_cooldown s)
    \<longrightarrow> can_execute_action now token s = (False, s))"
  by (auto simp: can_execute_action_def split: option.splits)

theorem can_execute_action_admit_or_reject_witness:
  "can_execute_action 5 ''volume_up'' init_controller
     = (True, init_controller\<lparr> last_action_time := [''volume_up'' \<mapsto> 5] \<rparr>)
   \<and> can_execute_action 6 ''volume_up''
       (init_controller\<lparr> last_action_time := [''volume_up'' \<mapsto> 5] \<rparr>)
     = (True, init_controller\<lparr> last_action_time := [''volume_up'' \<mapsto> 6] \<rparr>)
   \<and> can_execute_action (11 / 2) ''volume_up''
       (init_controller\<lparr> last_action_time := [''volume_up'' \<mapsto> 5] \<rparr>)
     = (False, init_controller\<lparr> last_action_time := [''volume_up'' \<mapsto> 5] \<rparr>)"
  using can_execute_action_admit_or_reject [of init_controller "''volume_up''" 5]
    can_execute_action_admit_or_reject
      [of "init_controller\<lparr> last_action_time := [''volume_up'' \<mapsto> 5] \<rparr>" "''volume_up''" 6]
    can_execute_action_admit_or_reject
      [of "init_controller\<lparr> last_action_time := [''volume_up'' \<mapsto> 5] \<rparr>" "''volume_up''" "11 / 2"]
  by (simp add: init_controller_def)

section \<open>Dispatch through the gate\<close>

lemma can_execute_action_admissible:
  "can_execute_action now k s =
     (if admissible s k now
      then (True, s\<lparr> last_action_time := (last_action_time s)(k \<mapsto> now) \<rparr>)
      else (False, s))"
  by (simp add: can_execute_action_def admissible_def split: option.splits)

lemma dispatch_unmapped: "event_action s e = None \<Longrightarrow> dispatch raises now e s = s"
  by (cases e) (simp_all add: execute_gesture_command_def execute_voice_command_def)

lemma dispatch_rejected:
  "\<not> admissible s (event_key e) now \<Longrightarrow> dispatch raises now e s = s"
  by (cases e)
     (simp_all add: execute_gesture_command_def execute_voice_command_def
        can_execute_action_admissible split: option.splits)

lemma dispatch_admitted:
  assumes "event_action s e = Some a" and "admissible s (event_key e) now"
  shows "invoked (dispatch raises now e s) = invoked s @ [a]"
    and "last_action_time (dispatch raises now e s) = (last_action_time s)(event_key e \<mapsto> now)"
    and "action_cooldown (dispatch raises now e s) = action_cooldown s"
    and "gesture_actions (dispatch raises now e s) = gesture_actions s"
    and "voice_actions (dispatch raises now e s) = voice_actions s"
  using assms
  by (cases e; simp add: execute_gesture_command_def execute_voice_command_def
        can_execute_action_admissible run_action_def Let_def split: option.splits)+

lemma event_action_after_dispatch:
  assumes "event_action s e = Some a" and "admissible s (event_key e) now"
  shows "event_action (dispatch raises now e s) e' = event_action s e'"
  using dispatch_admitted(4,5)[OF assms] by (cases e') simp_all

lemma within_cooldown_not_admissible:
  assumes "last_action_time s k = Some t1" and "t2 - t1 < action_cooldown s"
  shows "\<not> admissible s k t2"
  using assms by (simp add: admissible_def)

text \<open>
  C1, as stated, fails: the \<^verbatim>\<open>thumbs_up\<close> gesture and the voice command
  \<^verbatim>\<open>volume_up\<close> both resolve to the action \<^verbatim>\<open>volume_up\<close>, but the gesture path
  asks the gate with the key \<^verbatim>\<open>thumbs_up\<close> and the voice path with the key
  \<^verbatim>\<open>volume_up\<close>. Dispatched half a second apart on a fresh controller (cooldown one
  second), in either order, both are admitted and the action is invoked twice.
\<close>

theorem cross_source_cooldown_counterexample:
  "invoked (execute_voice_command (\<lambda>a. None) (1 / 2) ''volume_up''
      (execute_gesture_command (\<lambda>a. None) 0 ''thumbs_up'' init_controller))
     = [volume_up, volume_up]
   \<and> invoked (execute_gesture_command (\<lambda>a. None) (1 / 2) ''thumbs_up''
      (execute_voice_command (\<lambda>a. None) 0 ''volume_up'' init_controller))
     = [volume_up, volume_up]"
  by (simp add: execute_gesture_command_def execute_voice_command_def init_controller_def
      default_gesture_actions_def default_voice_actions_def can_execute_action_def
      run_action_def)

text \<open>
  C1, amended. The cooldown is keyed by the string the entry point passes to the gate
  (the gesture label for a gesture, the command string for a voice command), not by the
  action it resolves to. Take two mapped events from either source, the first admissible
  at \<open>t1\<close>, the second dispatched at \<open>t2\<close> within one cooldown of \<open>t1\<close>. If
  their keys are equal, exactly one invocation is added, whichever source came first. If
  their keys differ and the second is admissible too, both are invoked, even when both
  resolve to the same action.
\<close>

theorem cooldown_keyed_by_entry_string:
  assumes m1: "event_action s e1 = Some a1" and m2: "event_action s e2 = Some a2"
    and adm: "admissible s (event_key e1) t1"
    and win: "t2 - t1 < action_cooldown s"
  shows "(event_key e1 = event_key e2 \<longrightarrow>
            invoked (dispatch raises t2 e2 (dispatch raises t1 e1 s)) = invoked s @ [a1])
       \<and> (event_key e1 \<noteq> event_key e2 \<and> admissible s (event_key e2) t2 \<longrightarrow>
            invoked (dispatch raises t2 e2 (dispatch raises t1 e1 s)) = invoked s @ [a1, a2])"
proof -
  let ?s1 = "dispatch raises t1 e1 s"
  note f = dispatch_admitted[OF m1 adm, of raises]
  have m2': "event_action ?s1 e2 = Some a2"
    using event_action_after_dispatch[OF m1 adm] m2 by simp
  have same: "invoked (dispatch raises t2 e2 ?s1) = invoked s @ [a1]"
    if "event_key e1 = event_key e2"
  proof -
    have "\<not> admissible ?s1 (event_key e2) t2"
      using that win f(2,3) by (intro within_cooldown_not_admissible[of _ _ t1]) simp_all
    then show ?thesis using dispatch_rejected f(1) by simp
  qed
  have diff: "invoked (dispatch raises t2 e2 ?s1) = invoked s @ [a1, a2]"
    if "event_key e1 \<noteq> event_key e2" and "admissible s (event_key e2) t2"
  proof -
    have "admissible ?s1 (event_key e2) t2"
      using that f(2,3) by (simp add: admissible_def split: option.splits)
    then show ?thesis
      using dispatch_admitted(1)[OF m2', of t2 raises] f(1) by simp
  qed
  from same diff show ?thesis by blast
qed

theorem cooldown_keyed_by_entry_string_witness:
  "invoked (dispatch (\<lambda>a. None) (1 / 2) (VoiceEvent ''volume_up'')
      (dispatch (\<lambda>a. None) 0 (GestureEvent ''volume_up'')
         (init_controller\<lparr> gesture_actions := [''volume_up'' \<mapsto> volume_up] \<rparr>)))
     = [volume_up]
   \<and> invoked (dispatch (\<lambda>a. None) (1 / 2) (GestureEvent ''thumbs_up'')
      (dispatch (\<lambda>a. None) 0 (VoiceEvent ''volume_up'') init_controller))
     = [volume_up, volume_up]"
proof -
  let ?s = "init_controller\<lparr> gesture_actions := [''volume_up'' \<mapsto> volume_up] \<rparr>"
  have a: "event_action ?s (GestureEvent ''volume_up'') = Some volume_up"
    by simp
  have b: "event_action ?s (VoiceEvent ''volume_up'') = Some volume_up"
    by (simp add: init_controller_def default_voice_actions_def)
  have c: "admissible ?s (event_key (GestureEvent ''volume_up'')) 0"
    by (simp add: admissible_def init_controller_def)
  have d: "1 / 2 - 0 < action_cooldown ?s"
    by (simp add: init_controller_def)
  have e: "event_action init_controller (VoiceEvent ''volume_up'') = Some volume_up"
    by (simp add: init_controller_def default_voice_actions_def)
  have f: "event_action init_controller (GestureEvent ''thumbs_up'') = Some volume_up"
    by (simp add: init_controller_def default_gesture_actions_def)
  have g: "admissible init_controller (event_key (VoiceEvent ''volume_up'')) 0"
    by (simp add: admissible_def init_controller_def)
  have h: "1 / 2 - 0 < action_cooldown init_controller"
    by (simp add: init_controller_def)
  have i: "admissible init_controller (event_key (GestureEvent ''thumbs_up'')) (1 / 2)"
    by (simp add: admissible_def init_controller_def)
  have j: "invoked ?s = []" "invoked init_controller = []"
    by (simp_all add: init_controller_def)
  show ?thesis
    using cooldown_keyed_by_entry_string [OF a b c d, of "\<lambda>a. None"]
      cooldown_keyed_by_entry_string [OF e f g h, of "\<lambda>a. None"] i j
    by simp
qed

text \<open>
  C10. When the action of an admitted dispatch raises, the time stamp stored at admission
  stays (nothing rolls it back): the action was called once and the failure is only
  logged. Every later dispatch with
  the same key within one cooldown of the failed attempt is rejected and leaves the
  controller as it is, so nothing is invoked for it.
\<close>

theorem failed_action_keeps_cooldown:
  assumes m: "event_action s e = Some a"
    and adm: "admissible s (event_key e) t1"
    and fails: "raises a = Some msg"
  shows "last_action_time (dispatch raises t1 e s) (event_key e) = Some t1
       \<and> invoked (dispatch raises t1 e s) = invoked s @ [a]
       \<and> (\<exists>line. logger (dispatch raises t1 e s) = logger s @ [Error line])
       \<and> (\<forall>e' ts. event_key e' = event_key e \<and> (\<forall>t \<in> set ts. t - t1 < action_cooldown s) \<longrightarrow>
            foldl (\<lambda>s' t. dispatch raises t e' s') (dispatch raises t1 e s) ts
              = dispatch raises t1 e s)"
proof -
  let ?s1 = "dispatch raises t1 e s"
  note f = dispatch_admitted[OF m adm, of raises]
  have stamp: "last_action_time ?s1 (event_key e) = Some t1"
    using f(2) by simp
  have logged: "\<exists>line. logger ?s1 = logger s @ [Error line]"
    using m adm fails
    by (cases e)
       (simp_all add: execute_gesture_command_def execute_voice_command_def
          can_execute_action_admissible run_action_def Let_def)
  have rejected: "foldl (\<lambda>s' t. dispatch raises t e' s') ?s1 ts = ?s1"
    if k: "event_key e' = event_key e" and w: "\<forall>t \<in> set ts. t - t1 < action_cooldown s"
    for e' ts
    using w
  proof (induction ts)
    case Nil
    show ?case by simp
  next
    case (Cons t ts)
    have "t - t1 < action_cooldown ?s1"
      using Cons.prems f(3) by simp
    then have "\<not> admissible ?s1 (event_key e') t"
      using stamp k within_cooldown_not_admissible by simp
    then have "dispatch raises t e' ?s1 = ?s1"
      by (rule dispatch_rejected)
    then show ?case using Cons by simp
  qed
  from stamp f(1) logged rejected show ?thesis by blast
qed

theorem failed_action_keeps_cooldown_witness:
  "last_action_time (dispatch (\<lambda>a. Some ''boom'') 0 (VoiceEvent ''volume_up'') init_controller)
      ''volume_up'' = Some 0
   \<and> foldl (\<lambda>s' t. dispatch (\<lambda>a. Some ''boom'') t (GestureEvent ''volume_up'') s')
        (dispatch (\<lambda>a. Some ''boom'') 0 (VoiceEvent ''volume_up'') init_controller)
        [1 / 5, 1 / 2, 9 / 10]
     = dispatch (\<lambda>a. Some ''boom'') 0 (VoiceEvent ''volume_up'') init_controller
   \<and> foldl (\<lambda>s' t. dispatch (\<lambda>a. Some ''boom'') t (VoiceEvent ''volume_up'') s')
        (dispatch (\<lambda>a. Some ''boom'') 0 (VoiceEvent ''volume_up'') init_controller)
        [1 / 5, 1 / 2, 9 / 10]
     = dispatch (\<lambda>a. Some ''boom'') 0 (VoiceEvent ''volume_up'') init_controller"
proof -
  have m: "event_action init_controller (VoiceEvent ''volume_up'') = Some volume_up"
    by (simp add: init_controller_def default_voice_actions_def)
  have adm: "admissible init_controller (event_key (VoiceEvent ''volume_up'')) 0"
    by (simp add: admissible_def init_controller_def)
  have fails: "(\<lambda>a. Some ''boom'') volume_up = Some ''boom''"
    by simp
  note th = failed_action_keeps_cooldown [OF m adm fails]
  note later = th [THEN conjunct2, THEN conjunct2, THEN conjunct2, rule_format]
  from th have stamp:
    "last_action_time (dispatch (\<lambda>a. Some ''boom'') 0 (VoiceEvent ''volume_up'') init_controller)
       (event_key (VoiceEvent ''volume_up'')) = Some 0"
    by (rule conjunct1)
  have g:
    "foldl (\<lambda>s' t. dispatch (\<lambda>a. Some ''boom'') t (GestureEvent ''volume_up'') s')
        (dispatch (\<lambda>a. Some ''boom'') 0 (VoiceEvent ''volume_up'') init_controller)
        [1 / 5, 1 / 2, 9 / 10]
     = dispatch (\<lambda>a. Some ''boom'') 0 (VoiceEvent ''volume_up'') init_controller"
    by (rule later) (simp add: init_controller_def)
  have v:
    "foldl (\<lambda>s' t. dispatch (\<lambda>a. Some ''boom'') t (VoiceEvent ''volume_up'') s')
        (dispatch (\<lambda>a. Some ''boom'') 0 (VoiceEvent ''volume_up'') init_controller)
        [1 / 5, 1 / 2, 9 / 10]
     = dispatch (\<lambda>a. Some ''boom'') 0 (VoiceEvent ''volume_up'') init_controller"
    by (rule later) (simp add: init_controller_def)
  from stamp g v show ?thesis by simp
qed

section \<open>Gesture classification\<close>

lemma np_max_Inr: "np_max probs = Inr (Max (set probs))" if "probs \<noteq> []"
proof (cases probs)
  case Nil
  then show ?thesis using that by simp
next
  case (Cons x ys)
  have "fold max ys x = Max (set (x # ys))"
    by (simp only: Max.set_eq_fold)
  then show ?thesis using Cons by (simp add: np_max_def)
qed

lemma gesture_labels_vocabulary:
  "gesture_labels p = Some label \<Longrightarrow>
     label \<in> {''fist'', ''palm'', ''thumbs_up'', ''peace'', ''ok'', ''point''}"
  by (simp add: gesture_labels_def split: if_splits)

lemma classify_gesture_never_raises: "classify_gesture r f \<noteq> Inl e"
  by (simp add: classify_gesture_def split: option.splits sum.splits)

text \<open>
  C5. \<^verbatim>\<open>classify_gesture\<close> returns \<^verbatim>\<open>('none', 0.0)\<close> when there is no classifier
  and when a call of the classifier raises (or its answer is empty, which makes the
  indexing or \<^verbatim>\<open>np.max\<close> raise); it returns \<^verbatim>\<open>('none', confidence)\<close> when the
  confidence is not above \<^verbatim>\<open>GESTURE_THRESHOLD\<close>; a label other than
  \<^verbatim>\<open>'none'\<close> comes only with a confidence strictly above the threshold; and no
  exception leaves the method.
\<close>

theorem classify_gesture_degrades:
  "(classifier r = None \<longrightarrow> classify_gesture r f = Inr (''none'', 0))
 \<and> (\<forall>clf e. classifier r = Some clf \<and>
        (predict clf f = Inl e \<or> predict clf f = Inr [] \<or>
         predict_proba clf f = Inl e \<or> predict_proba clf f = Inr [])
      \<longrightarrow> classify_gesture r f = Inr (''none'', 0))
 \<and> (\<forall>clf p ps probs. classifier r = Some clf \<and> predict clf f = Inr (p # ps) \<and>
        predict_proba clf f = Inr probs \<and> probs \<noteq> [] \<and> \<not> Max (set probs) > GESTURE_THRESHOLD
      \<longrightarrow> classify_gesture r f = Inr (''none'', Max (set probs)))
 \<and> (\<forall>label confidence. classify_gesture r f = Inr (label, confidence) \<and> label \<noteq> ''none''
      \<longrightarrow> confidence > GESTURE_THRESHOLD)
 \<and> (\<forall>e. classify_gesture r f \<noteq> Inl e)"
proof (intro conjI allI impI)
  show "classify_gesture r f = Inr (''none'', 0)" if "classifier r = None"
    using that by (simp add: classify_gesture_def)
next
  fix clf e
  assume "classifier r = Some clf \<and>
        (predict clf f = Inl e \<or> predict clf f = Inr [] \<or>
         predict_proba clf f = Inl e \<or> predict_proba clf f = Inr [])"
  then show "classify_gesture r f = Inr (''none'', 0)"
    by (auto simp: classify_gesture_def classify_try_def index0_def np_max_def
          split: sum.splits list.splits)
next
  fix clf p ps probs
  assume "classifier r = Some clf \<and> predict clf f = Inr (p # ps) \<and>
        predict_proba clf f = Inr probs \<and> probs \<noteq> [] \<and> \<not> Max (set probs) > GESTURE_THRESHOLD"
  then show "classify_gesture r f = Inr (''none'', Max (set probs))"
    by (simp add: classify_gesture_def classify_try_def index0_def np_max_Inr)
next
  fix label confidence
  assume "classify_gesture r f = Inr (label, confidence) \<and> label \<noteq> ''none''"
  then show "confidence > GESTURE_THRESHOLD"
    by (auto simp: classify_gesture_def classify_try_def
          split: option.splits sum.splits if_splits)
next
  fix e show "classify_gesture r f \<noteq> Inl e"
    by (rule classify_gesture_never_raises)
qed

theorem classify_gesture_degrades_witness:
  "classify_gesture (init_recognizer None) [1, 2, 3] = Inr (''none'', 0)
   \<and> classify_gesture (init_recognizer (Some (fitted_classifier 1 [1 / 10, 9 / 10]))) [1, 2, 3]
       = Inr (''none'', 0)
   \<and> classify_gesture (init_recognizer (Some (fitted_classifier 1 [3 / 10, 7 / 10])))
         (replicate 63 0)
       = Inr (''none'', 7 / 10)
   \<and> classify_gesture (init_recognizer (Some (fitted_classifier 1 [1 / 10, 9 / 10])))
         (replicate 63 0)
       = Inr (''palm'', 9 / 10)
   \<and> (9 / 10 :: real) > GESTURE_THRESHOLD"
  using classify_gesture_degrades [of "init_recognizer None" "[1, 2, 3]"]
    classify_gesture_degrades
      [of "init_recognizer (Some (fitted_classifier 1 [1 / 10, 9 / 10]))" "[1, 2, 3]"]
    classify_gesture_degrades
      [of "init_recognizer (Some (fitted_classifier 1 [3 / 10, 7 / 10]))" "replicate 63 0"]
    classify_gesture_degrades
      [of "init_recognizer (Some (fitted_classifier 1 [1 / 10, 9 / 10]))" "replicate 63 0"]
  by (simp add: init_recognizer_def fitted_classifier_def expected_features_def
      classify_gesture_def classify_try_def index0_def np_max_def gesture_labels_def
      GESTURE_THRESHOLD_def)

text \<open>
  C7, as stated, fails: a vector of two features given to a classifier fitted on 63
  features makes the classifier raise \<^verbatim>\<open>ValueError\<close> inside the \<^verbatim>\<open>try\<close>, and the
  bare \<^verbatim>\<open>except:\<close> answers \<^verbatim>\<open>('none', 0.0)\<close>; nothing is raised to the caller.
\<close>

theorem wrong_length_counterexample:
  "length [1 / 10, 2 / 10 :: real] \<noteq> expected_features
   \<and> classify_gesture (init_recognizer (Some (fitted_classifier 0 [9 / 10, 1 / 10])))
        [1 / 10, 2 / 10]
       = Inr (''none'', 0)"
  by (simp add: init_recognizer_def fitted_classifier_def expected_features_def
      classify_gesture_def classify_try_def)

text \<open>
  C7, amended. \<^verbatim>\<open>classify_gesture\<close> checks no length itself. For a feature vector
  whose length differs from the expected count, when there is no classifier or the
  classifier rejects the vector by raising, the result is \<^verbatim>\<open>('none', 0.0)\<close>, the same
  silent answer as for any other failure; and for no feature vector at all does an
  exception leave the method.
\<close>

theorem wrong_length_degrades_silently:
  "(length f \<noteq> expected_features \<and>
      (classifier r = None \<or> (\<exists>clf e. classifier r = Some clf \<and> predict clf f = Inl e))
    \<longrightarrow> classify_gesture r f = Inr (''none'', 0))
   \<and> (\<forall>e. classify_gesture r f \<noteq> Inl e)"
  by (auto simp: classify_gesture_def classify_try_def split: option.splits sum.splits)

theorem wrong_length_degrades_silently_witness:
  "classify_gesture (init_recognizer (Some (fitted_classifier 2 [1]))) [] = Inr (''none'', 0)
   \<and> classify_gesture (init_recognizer (Some (fitted_classifier 2 [1]))) [] \<noteq> Inl ValueError"
proof -
  let ?r = "init_recognizer (Some (fitted_classifier 2 [1]))"
  have len: "length ([] :: real list) \<noteq> expected_features"
    by (simp add: expected_features_def)
  have rej: "\<exists>clf e. classifier ?r = Some clf \<and> predict clf [] = Inl e"
    by (simp add: init_recognizer_def fitted_classifier_def expected_features_def)
  from wrong_length_degrades_silently [of "[]" ?r] len rej show ?thesis
    by blast
qed

lemma classify_gesture_label_above_threshold:
  assumes "classify_gesture r f = Inr (label, confidence)" and "label \<noteq> ''none''"
  shows "confidence > GESTURE_THRESHOLD"
  using assms
  by (auto simp: classify_gesture_def classify_try_def
        split: option.splits sum.splits if_splits)

text \<open>
  C8, as stated, fails: a classifier fitted by the training script can answer class 6
  (\<^verbatim>\<open>pinch\<close> there), which the recogniser's table does not hold; with a confidence above
  the threshold the label returned is the default of the lookup, \<^verbatim>\<open>'unknown'\<close>, which
  is neither in the vocabulary nor \<^verbatim>\<open>'none'\<close>.
\<close>

theorem label_vocabulary_counterexample:
  "classify_gesture (init_recognizer (Some (fitted_classifier 6 [1 / 20, 19 / 20])))
       (replicate 63 0)
     = Inr (''unknown'', 19 / 20)
   \<and> ''unknown'' \<notin> {''fist'', ''palm'', ''thumbs_up'', ''peace'', ''ok'', ''point'', ''none''}"
  by (simp add: init_recognizer_def fitted_classifier_def expected_features_def
      classify_gesture_def classify_try_def index0_def np_max_def gesture_labels_def
      GESTURE_THRESHOLD_def)

text \<open>
  C8, amended. Every label \<^verbatim>\<open>classify_gesture\<close> returns is one of the six gesture
  names, \<^verbatim>\<open>'none'\<close> or \<^verbatim>\<open>'unknown'\<close>; \<^verbatim>\<open>'unknown'\<close> is returned only for a
  predicted class that the table \<^verbatim>\<open>gesture_labels\<close> does not hold, and only with a
  confidence strictly above \<^verbatim>\<open>GESTURE_THRESHOLD\<close>.
\<close>

theorem classify_gesture_label_range:
  "classify_gesture r f = Inr (label, confidence) \<longrightarrow>
     label \<in> {''fist'', ''palm'', ''thumbs_up'', ''peace'', ''ok'', ''point'', ''none'', ''unknown''}
     \<and> (label = ''unknown'' \<longrightarrow>
          (\<exists>clf p ps. classifier r = Some clf \<and> predict clf f = Inr (p # ps)
             \<and> gesture_labels p = None))
     \<and> (label = ''unknown'' \<longrightarrow> confidence > GESTURE_THRESHOLD)"
proof (intro impI conjI)
  assume res: "classify_gesture r f = Inr (label, confidence)"
  show "label \<in> {''fist'', ''palm'', ''thumbs_up'', ''peace'', ''ok'', ''point'', ''none'', ''unknown''}"
    using res gesture_labels_vocabulary
    by (fastforce simp: classify_gesture_def classify_try_def
          split: option.splits sum.splits if_splits)
  show "\<exists>clf p ps. classifier r = Some clf \<and> predict clf f = Inr (p # ps)
          \<and> gesture_labels p = None" if "label = ''unknown''"
    using res that gesture_labels_vocabulary
    by (fastforce simp: classify_gesture_def classify_try_def index0_def
          split: option.splits sum.splits if_splits list.splits)
  show "confidence > GESTURE_THRESHOLD" if "label = ''unknown''"
    using res that by (intro classify_gesture_label_above_threshold[of r f label]) simp_all
qed

theorem classify_gesture_label_range_witness:
  "classify_gesture (init_recognizer (Some (fitted_classifier 7 [19 / 20]))) (replicate 63 0)
     = Inr (''unknown'', 19 / 20)
   \<and> (\<exists>clf p ps. classifier (init_recognizer (Some (fitted_classifier 7 [19 / 20]))) = Some clf
          \<and> predict clf (replicate 63 0) = Inr (p # ps) \<and> gesture_labels p = None)
   \<and> (19 / 20 :: real) > GESTURE_THRESHOLD"
proof -
  let ?r = "init_recognizer (Some (fitted_classifier 7 [19 / 20]))"
  have res: "classify_gesture ?r (replicate 63 0) = Inr (''unknown'', 19 / 20)"
    by (simp add: init_recognizer_def fitted_classifier_def expected_features_def
        classify_gesture_def classify_try_def index0_def np_max_def gesture_labels_def
        GESTURE_THRESHOLD_def)
  from classify_gesture_label_range [of ?r "replicate 63 0" "''unknown''" "19 / 20"] res
  show ?thesis by blast
qed

section \<open>Smoothing buffer\<close>

lemma set_first_seen: "set (first_seen xs) = set xs"
  by (induction xs) auto

lemma distinct_first_seen: "distinct (first_seen xs)"
  by (induction xs) (auto simp: set_first_seen)

lemma max_from_cases:
  "(max_from key b ys = b \<and> (\<forall>y \<in> set ys. key y \<le> key b))
   \<or> (key b < key (max_from key b ys) \<and> first_max key ys (max_from key b ys))"
proof (induction ys arbitrary: b)
  case Nil
  show ?case by simp
next
  case (Cons y ys)
  let ?b = "if key y > key b then y else b"
  let ?w = "max_from key ?b ys"
  have w: "max_from key b (y # ys) = ?w" by simp
  from Cons.IH[of ?b] show ?case
  proof
    assume stay: "?w = ?b \<and> (\<forall>z \<in> set ys. key z \<le> key ?b)"
    show ?thesis
    proof (cases "key y > key b")
      case True
      with stay have "first_max key (y # ys) y"
        unfolding first_max_def by (intro exI[of _ "[]"] exI[of _ ys]) simp
      with True stay w show ?thesis by simp
    next
      case False
      with stay w show ?thesis by auto
    qed
  next
    assume move: "key ?b < key ?w \<and> first_max key ys ?w"
    then obtain before after where ys: "ys = before @ ?w # after"
      and lt: "\<forall>l \<in> set before. key l < key ?w"
      and le: "\<forall>l \<in> set after. key l \<le> key ?w"
      unfolding first_max_def by blast
    from move have yb: "key y < key ?w" "key b < key ?w"
      by (auto split: if_splits)
    have "first_max key (y # ys) ?w"
      unfolding first_max_def
      using ys lt le yb(1) by (intro exI[of _ "y # before"] exI[of _ after]) simp
    with yb(2) w show ?thesis by simp
  qed
qed

lemma py_max_key_first_max:
  assumes "xs \<noteq> []"
  shows "\<exists>w. py_max_key key xs = Inr w \<and> first_max key xs w"
proof -
  from assms obtain x ys where xs: "xs = x # ys" by (cases xs) auto
  let ?w = "max_from key x ys"
  from max_from_cases[of key x ys] have "first_max key (x # ys) ?w"
  proof
    assume "?w = x \<and> (\<forall>y \<in> set ys. key y \<le> key x)"
    then show ?thesis
      unfolding first_max_def by (intro exI[of _ "[]"] exI[of _ ys]) simp
  next
    assume "key x < key ?w \<and> first_max key ys ?w"
    then obtain before after where "ys = before @ ?w # after"
      "\<forall>l \<in> set before. key l < key ?w" "\<forall>l \<in> set after. key l \<le> key ?w" "key x < key ?w"
      unfolding first_max_def by blast
    then show ?thesis
      unfolding first_max_def by (intro exI[of _ "x # before"] exI[of _ after]) simp
  qed
  with xs show ?thesis by (simp add: py_max_key_def)
qed

lemma first_max_greatest: "first_max key xs w \<Longrightarrow> w \<in> set xs \<and> (\<forall>l \<in> set xs. key l \<le> key w)"
  unfolding first_max_def by (auto simp: less_imp_le)

lemma set_py_set: "admissible_order set_iter \<Longrightarrow> set (py_set set_iter xs) = set xs"
  by (simp add: py_set_def admissible_order_def distinct_first_seen set_first_seen)

lemma smooth_gesture_buffer:
  "gesture_buffer (snd (smooth_gesture set_iter g r)) =
     (if int (length (gesture_buffer r @ [g])) > buffer_size r
      then tl (gesture_buffer r @ [g]) else gesture_buffer r @ [g])"
  "buffer_size (snd (smooth_gesture set_iter g r)) = buffer_size r"
  by (simp_all add: smooth_gesture_def Let_def)

lemma smooth_gesture_result:
  "fst (smooth_gesture set_iter g r) =
     (let buf = gesture_buffer (snd (smooth_gesture set_iter g r)) in
      if length buf \<ge> 3 then py_max_key (count_list buf) (py_set set_iter buf) else Inr g)"
  by (simp add: smooth_gesture_def Let_def)

lemma smooth_gesture_window:
  assumes ord: "admissible_order set_iter"
    and buf: "buf = gesture_buffer (snd (smooth_gesture set_iter g r))"
  shows "(length buf < 3 \<longrightarrow> fst (smooth_gesture set_iter g r) = Inr g)
       \<and> (length buf \<ge> 3 \<longrightarrow>
            (\<exists>w. fst (smooth_gesture set_iter g r) = Inr w \<and> w \<in> set buf
               \<and> (\<forall>l. count_list buf l \<le> count_list buf w)
               \<and> first_max (count_list buf) (py_set set_iter buf) w))"
proof (intro conjI impI)
  assume "length buf < 3"
  then show "fst (smooth_gesture set_iter g r) = Inr g"
    using buf by (simp add: smooth_gesture_result Let_def)
next
  assume long: "length buf \<ge> 3"
  then have "set buf \<noteq> {}" by auto
  then have ne: "py_set set_iter buf \<noteq> []"
    using set_py_set[OF ord, of buf] by auto
  from py_max_key_first_max[OF ne, of "count_list buf"]
  obtain w where w: "py_max_key (count_list buf) (py_set set_iter buf) = Inr w"
    and fm: "first_max (count_list buf) (py_set set_iter buf) w" by blast
  from first_max_greatest[OF fm] set_py_set[OF ord, of buf]
  have mem: "w \<in> set buf" and top: "\<forall>l \<in> set buf. count_list buf l \<le> count_list buf w"
    by auto
  have all: "count_list buf l \<le> count_list buf w" for l
  proof (cases "l \<in> set buf")
    case True with top show ?thesis by blast
  next
    case False then show ?thesis by (simp add: count_list_0_iff)
  qed
  from long buf w have "fst (smooth_gesture set_iter g r) = Inr w"
    by (simp add: smooth_gesture_result Let_def)
  with mem all fm
  show "\<exists>w. fst (smooth_gesture set_iter g r) = Inr w \<and> w \<in> set buf
               \<and> (\<forall>l. count_list buf l \<le> count_list buf w)
               \<and> first_max (count_list buf) (py_set set_iter buf) w"
    by blast
qed

lemma pushed_Nil: "pushed set_iter r [] = r"
  by (simp add: pushed_def)

lemma pushed_snoc:
  "pushed set_iter r (gs @ [g]) = snd (smooth_gesture set_iter g (pushed set_iter r gs))"
  by (simp add: pushed_def)

lemma pushed_Cons:
  "pushed set_iter r (g # gs) = pushed set_iter (snd (smooth_gesture set_iter g r)) gs"
  by (simp add: pushed_def)

lemma buffer_size_pushed: "buffer_size (pushed set_iter r gs) = buffer_size r"
  by (induction gs arbitrary: r) (simp_all add: pushed_Nil pushed_Cons smooth_gesture_buffer)

lemma push_keeps_bound:
  assumes "0 \<le> buffer_size r" and "int (length (gesture_buffer r)) \<le> buffer_size r"
  shows "int (length (gesture_buffer (snd (smooth_gesture set_iter g r)))) \<le> buffer_size r"
  using assms by (simp add: smooth_gesture_buffer)

lemma ex_window:
  "gesture_buffer (pushed set_iter (init_recognizer clf) [''fist'', ''palm'', ''fist'', ''fist'', ''palm''])
     = [''fist'', ''palm'', ''fist'', ''fist'', ''palm'']"
  by (simp add: pushed_Cons pushed_Nil smooth_gesture_buffer init_recognizer_def GESTURE_SMOOTHING_def)

text \<open>
  C9. Started from a buffer within the bound (the recogniser starts with the empty one)
  and a size \<open>N \<ge> 0\<close> (\<^verbatim>\<open>GESTURE_SMOOTHING\<close>, 5), the buffer holds at most \<open>N\<close>
  labels after every sequence of pushes. A push appends the new label; on a full buffer
  it then drops the oldest one.
\<close>

theorem buffer_length_bounded:
  assumes n: "0 \<le> buffer_size r"
    and start: "int (length (gesture_buffer r)) \<le> buffer_size r"
  shows "int (length (gesture_buffer (pushed set_iter r gestures))) \<le> buffer_size r
       \<and> (int (length (gesture_buffer r)) < buffer_size r \<longrightarrow>
            gesture_buffer (snd (smooth_gesture set_iter g r)) = gesture_buffer r @ [g])
       \<and> (int (length (gesture_buffer r)) = buffer_size r \<longrightarrow>
            gesture_buffer (snd (smooth_gesture set_iter g r)) = tl (gesture_buffer r @ [g]))"
proof -
  have "int (length (gesture_buffer (pushed set_iter r gestures))) \<le> buffer_size r"
    using n start
  proof (induction gestures arbitrary: r)
    case Nil
    then show ?case by (simp add: pushed_Nil)
  next
    case (Cons g gs)
    let ?r = "snd (smooth_gesture set_iter g r)"
    have "int (length (gesture_buffer (pushed set_iter ?r gs))) \<le> buffer_size ?r"
      using Cons.prems push_keeps_bound[where r=r and g=g and set_iter=set_iter]
      by (intro Cons.IH) (simp_all add: smooth_gesture_buffer(2))
    then show ?case by (simp add: pushed_Cons smooth_gesture_buffer(2))
  qed
  then show ?thesis by (simp add: smooth_gesture_buffer)
qed

theorem buffer_length_bounded_witness:
  "int (length (gesture_buffer (pushed id (init_recognizer None)
      [''fist'', ''palm'', ''fist'', ''fist'', ''palm'', ''ok'', ''ok'']))) \<le> 5
   \<and> gesture_buffer (snd (smooth_gesture id ''ok'' (init_recognizer None))) = [''ok'']
   \<and> gesture_buffer (snd (smooth_gesture id ''ok''
        (pushed id (init_recognizer None) [''fist'', ''palm'', ''fist'', ''fist'', ''palm''])))
      = [''palm'', ''fist'', ''fist'', ''palm'', ''ok'']"
proof -
  let ?r0 = "init_recognizer None"
  let ?r5 = "pushed id ?r0 [''fist'', ''palm'', ''fist'', ''fist'', ''palm'']"
  have n0: "0 \<le> buffer_size ?r0" and s0: "int (length (gesture_buffer ?r0)) \<le> buffer_size ?r0"
    and l0: "int (length (gesture_buffer ?r0)) < buffer_size ?r0"
    by (simp_all add: init_recognizer_def GESTURE_SMOOTHING_def)
  have w5: "gesture_buffer ?r5 = [''fist'', ''palm'', ''fist'', ''fist'', ''palm'']"
    by (rule ex_window)
  have z5: "buffer_size ?r5 = 5"
    by (simp add: buffer_size_pushed init_recognizer_def GESTURE_SMOOTHING_def)
  have a: "int (length (gesture_buffer (pushed id ?r0
      [''fist'', ''palm'', ''fist'', ''fist'', ''palm'', ''ok'', ''ok'']))) \<le> 5"
    and b: "gesture_buffer (snd (smooth_gesture id ''ok'' ?r0)) = [''ok'']"
    using buffer_length_bounded [OF n0 s0, of id
        "[''fist'', ''palm'', ''fist'', ''fist'', ''palm'', ''ok'', ''ok'']" "''ok''"] l0
    by (simp_all add: init_recognizer_def GESTURE_SMOOTHING_def)
  have c: "gesture_buffer (snd (smooth_gesture id ''ok'' ?r5))
      = [''palm'', ''fist'', ''fist'', ''palm'', ''ok'']"
    using buffer_length_bounded [of ?r5 id "[]" "''ok''"] w5 z5 by simp
  from a b c show ?thesis by simp
qed

text \<open>
  C4, as stated, fails in its tie-break. Of the labels \<^verbatim>\<open>fist\<close> and \<^verbatim>\<open>palm\<close> a set
  iterates one first. If it is \<^verbatim>\<open>fist\<close> (order \<open>id\<close>), the window
  \<^verbatim>\<open>[fist, palm, fist, palm]\<close> is answered \<^verbatim>\<open>fist\<close>, though \<^verbatim>\<open>palm\<close> is the
  most recently seen of the two tied labels; if it is \<^verbatim>\<open>palm\<close> (order \<open>rev\<close>), the
  window \<^verbatim>\<open>[fist, palm, palm, fist]\<close> is answered \<^verbatim>\<open>palm\<close>, though \<^verbatim>\<open>fist\<close> is
  the most recently seen.
\<close>

theorem tie_break_counterexample:
  "fst (smooth_gesture id ''palm'' (pushed id (init_recognizer None) [''fist'', ''palm'', ''fist'']))
      = Inr ''fist''
   \<and> spec_stabilized [''fist'', ''palm'', ''fist'', ''palm''] = Inr ''palm''
   \<and> fst (smooth_gesture rev ''fist'' (pushed rev (init_recognizer None) [''fist'', ''palm'', ''palm'']))
      = Inr ''palm''
   \<and> spec_stabilized [''fist'', ''palm'', ''palm'', ''fist''] = Inr ''fist''"
  by (simp add: pushed_def smooth_gesture_def init_recognizer_def GESTURE_SMOOTHING_def
      py_set_def py_max_key_def spec_stabilized_def Let_def)

text \<open>
  Whatever the iteration order, the code gives these two windows the same answer, while the
  most recently seen label differs between them.
\<close>

lemma vote_ignores_recency:
  "fst (smooth_gesture set_iter ''palm'' (pushed set_iter (init_recognizer None) [''fist'', ''palm'', ''fist'']))
   = fst (smooth_gesture set_iter ''fist'' (pushed set_iter (init_recognizer None) [''fist'', ''palm'', ''palm'']))"
proof -
  have c: "count_list [''fist'', ''palm'', ''fist'', ''palm''] = count_list [''fist'', ''palm'', ''palm'', ''fist'']"
    by (rule ext) simp
  show ?thesis
    by (simp add: pushed_def smooth_gesture_def init_recognizer_def GESTURE_SMOOTHING_def
      py_set_def Let_def c)
qed

text \<open>
  C4, amended. For every admissible iteration order of the set: a push returns the pushed
  label unchanged while the window, after the append and the eviction, holds fewer than 3
  labels; otherwise it returns a label of the window with the highest occurrence count,
  and of several such labels the one that the set of the window's labels iterates first
  (an order Python does not tie to recency). Pushing \<^verbatim>\<open>[fist, palm, fist, fist, palm]\<close>
  into the empty buffer of size 5 yields \<^verbatim>\<open>fist\<close> on the final push.
\<close>

theorem smooth_gesture_vote:
  assumes ord: "admissible_order set_iter"
    and buf: "buf = gesture_buffer (snd (smooth_gesture set_iter g r))"
  shows "(length buf < 3 \<longrightarrow> fst (smooth_gesture set_iter g r) = Inr g)
       \<and> (length buf \<ge> 3 \<longrightarrow>
            (\<exists>w. fst (smooth_gesture set_iter g r) = Inr w \<and> w \<in> set buf
               \<and> (\<forall>l. count_list buf l \<le> count_list buf w)
               \<and> first_max (count_list buf) (py_set set_iter buf) w))
       \<and> fst (smooth_gesture set_iter ''palm''
            (pushed set_iter (init_recognizer clf) [''fist'', ''palm'', ''fist'', ''fist'']))
          = Inr ''fist''"
proof -
  let ?r = "pushed set_iter (init_recognizer clf) [''fist'', ''palm'', ''fist'', ''fist'']"
  let ?w = "[''fist'', ''palm'', ''fist'', ''fist'', ''palm'']"
  have win: "?w = gesture_buffer (snd (smooth_gesture set_iter ''palm'' ?r))"
    using ex_window[of set_iter clf] pushed_snoc[of set_iter "init_recognizer clf" "[''fist'', ''palm'', ''fist'', ''fist'']" "''palm''"]
    by simp
  have "length ?w \<ge> 3" by simp
  with smooth_gesture_window[OF ord win]
  obtain w where res: "fst (smooth_gesture set_iter ''palm'' ?r) = Inr w"
    and mem: "w \<in> set ?w" and top: "\<forall>l. count_list ?w l \<le> count_list ?w w"
    by auto
  from top have "count_list ?w ''fist'' \<le> count_list ?w w" by blast
  with mem have "w = ''fist''" by auto
  with res smooth_gesture_window[OF ord buf] show ?thesis by simp
qed

theorem smooth_gesture_vote_witness:
  "fst (smooth_gesture id ''palm'' (pushed id (init_recognizer None) [''fist''])) = Inr ''palm''
   \<and> first_max (count_list [''fist'', ''palm'', ''fist'', ''palm''])
        (py_set id [''fist'', ''palm'', ''fist'', ''palm'']) ''fist''
   \<and> fst (smooth_gesture id ''palm''
        (pushed id (init_recognizer None) [''fist'', ''palm'', ''fist''])) = Inr ''fist''
   \<and> fst (smooth_gesture id ''palm''
        (pushed id (init_recognizer None) [''fist'', ''palm'', ''fist'', ''fist''])) = Inr ''fist''"
proof -
  have ord: "admissible_order (id :: string list \<Rightarrow> string list)"
    by (simp add: admissible_order_def)
  let ?r1 = "pushed id (init_recognizer None) [''fist'']"
  let ?r3 = "pushed id (init_recognizer None) [''fist'', ''palm'', ''fist'']"
  have b1: "[''fist'', ''palm''] = gesture_buffer (snd (smooth_gesture id ''palm'' ?r1))"
    by (simp add: pushed_def smooth_gesture_def init_recognizer_def GESTURE_SMOOTHING_def Let_def)
  have b3: "[''fist'', ''palm'', ''fist'', ''palm'']
      = gesture_buffer (snd (smooth_gesture id ''palm'' ?r3))"
    by (simp add: pushed_def smooth_gesture_def init_recognizer_def GESTURE_SMOOTHING_def Let_def)
  have r3: "fst (smooth_gesture id ''palm'' ?r3) = Inr ''fist''"
    by (simp add: pushed_def smooth_gesture_def init_recognizer_def GESTURE_SMOOTHING_def
        py_set_def py_max_key_def Let_def)
  from smooth_gesture_vote [OF ord b1, of None]
  have short: "fst (smooth_gesture id ''palm'' ?r1) = Inr ''palm''"
    and ex: "fst (smooth_gesture id ''palm''
        (pushed id (init_recognizer None) [''fist'', ''palm'', ''fist'', ''fist''])) = Inr ''fist''"
    by simp_all
  from smooth_gesture_vote [OF ord b3, of None] r3
  have "first_max (count_list [''fist'', ''palm'', ''fist'', ''palm''])
        (py_set id [''fist'', ''palm'', ''fist'', ''palm'']) ''fist''"
    by simp
  with short ex r3 show ?thesis by simp
qed

section \<open>Voice phrase mapping\<close>

lemma process_command_None:
  "process_command cmds spoken = None \<longleftrightarrow> (\<forall>(p, c) \<in> set cmds. \<not> sublist p spoken)"
  by (induction cmds spoken rule: process_command.induct) auto

lemma process_command_Some:
  "process_command cmds spoken = Some c \<longleftrightarrow>
     (\<exists>before p after. cmds = before @ (p, c) # after \<and> sublist p spoken
        \<and> (\<forall>(q, d) \<in> set before. \<not> sublist q spoken))"
proof (induction cmds spoken rule: process_command.induct)
  case (1 spoken)
  show ?case by simp
next
  case (2 phrase command rest spoken)
  show ?case
  proof (cases "sublist phrase spoken")
    case True
    have "(\<exists>before p after. (phrase, command) # rest = before @ (p, c) # after \<and> sublist p spoken
        \<and> (\<forall>(q, d) \<in> set before. \<not> sublist q spoken)) \<longleftrightarrow> command = c"
    proof
      assume "\<exists>before p after. (phrase, command) # rest = before @ (p, c) # after \<and> sublist p spoken
        \<and> (\<forall>(q, d) \<in> set before. \<not> sublist q spoken)"
      then obtain before p after where e: "(phrase, command) # rest = before @ (p, c) # after"
        and n: "\<forall>(q, d) \<in> set before. \<not> sublist q spoken" by blast
      show "command = c"
      proof (cases before)
        case Nil with e show ?thesis by simp
      next
        case (Cons b bs)
        with e have "b = (phrase, command)" by simp
        with Cons n True show ?thesis by auto
      qed
    next
      assume "command = c"
      then have "(phrase, command) # rest = [] @ (phrase, c) # rest" by simp
      with True show "\<exists>before p after. (phrase, command) # rest = before @ (p, c) # after
        \<and> sublist p spoken \<and> (\<forall>(q, d) \<in> set before. \<not> sublist q spoken)"
        by (intro exI[of _ "[]"] exI[of _ phrase] exI[of _ rest]) simp
    qed
    with True show ?thesis by simp
  next
    case False
    have "(\<exists>before p after. (phrase, command) # rest = before @ (p, c) # after \<and> sublist p spoken
        \<and> (\<forall>(q, d) \<in> set before. \<not> sublist q spoken))
      \<longleftrightarrow> (\<exists>before p after. rest = before @ (p, c) # after \<and> sublist p spoken
        \<and> (\<forall>(q, d) \<in> set before. \<not> sublist q spoken))" (is "?L \<longleftrightarrow> ?R")
    proof
      assume ?L
      then obtain before p after where e: "(phrase, command) # rest = before @ (p, c) # after"
        and sp: "sublist p spoken"
        and n: "\<forall>(q, d) \<in> set before. \<not> sublist q spoken" by blast
      show ?R
      proof (cases before)
        case Nil with e sp False show ?thesis by simp
      next
        case (Cons b bs)
        with e have "rest = bs @ (p, c) # after" by simp
        moreover from Cons n have "\<forall>(q, d) \<in> set bs. \<not> sublist q spoken" by simp
        ultimately show ?thesis using sp by blast
      qed
    next
      assume ?R
      then obtain before p after where e: "rest = before @ (p, c) # after"
        and sp: "sublist p spoken"
        and n: "\<forall>(q, d) \<in> set before. \<not> sublist q spoken" by blast
      from e have "(phrase, command) # rest = ((phrase, command) # before) @ (p, c) # after"
        by simp
      moreover from n False have "\<forall>(q, d) \<in> set ((phrase, command) # before). \<not> sublist q spoken"
        by simp
      ultimately show ?L using sp by blast
    qed
    with False 2 show ?thesis by simp
  qed
qed

text \<open>
  C6, as stated, fails: \<^verbatim>\<open>process_command\<close> does not lower-case its argument. On a
  phrase with capitals the configured key is not found, although it is a substring of the
  lower-cased phrase.
\<close>

theorem voice_case_counterexample:
  "process_command [(''open browser'', ''open_browser'')] ''Please OPEN Browser now'' = None
   \<and> sublist ''open browser'' (lower ''Please OPEN Browser now'')"
  by code_simp

text \<open>
  C6, amended. \<^verbatim>\<open>process_command\<close> compares the phrase as it is given: it returns the
  token of the first pair, in insertion order, whose key is a substring of the phrase, and
  \<^verbatim>\<open>None\<close> when no key is. The lower-casing is done by its caller
  \<^verbatim>\<open>listen_for_command\<close>, which hands it the lower-cased recognised text. With the
  mapping \<^verbatim>\<open>{"open browser": "open_browser"}\<close>, \<^verbatim>\<open>"please open browser now"\<close> gives
  \<^verbatim>\<open>"open_browser"\<close> and \<^verbatim>\<open>"unknown request"\<close> gives \<^verbatim>\<open>None\<close>.
\<close>

theorem process_command_first_match:
  "(process_command cmds spoken = None \<longleftrightarrow> (\<forall>(p, c) \<in> set cmds. \<not> sublist p spoken))
   \<and> (\<forall>c. process_command cmds spoken = Some c \<longleftrightarrow>
         (\<exists>before p after. cmds = before @ (p, c) # after \<and> sublist p spoken
            \<and> (\<forall>(q, d) \<in> set before. \<not> sublist q spoken)))
   \<and> listen_for_command cmds (Recognized spoken) = process_command cmds (lower spoken)
   \<and> process_command [(''open browser'', ''open_browser'')] ''please open browser now''
        = Some ''open_browser''
   \<and> process_command [(''open browser'', ''open_browser'')] ''unknown request'' = None"
proof -
  have a: "process_command [(''open browser'', ''open_browser'')] ''please open browser now''
        = Some ''open_browser''" by code_simp
  have b: "process_command [(''open browser'', ''open_browser'')] ''unknown request'' = None"
    by code_simp
  have c: "listen_for_command cmds (Recognized spoken) = process_command cmds (lower spoken)"
    by (simp add: listen_for_command_def)
  from process_command_None[of cmds spoken] process_command_Some[of cmds spoken] a b c
  show ?thesis by blast
qed

theorem process_command_first_match_witness:
  "process_command [(''volume up'', ''volume_up''), (''up'', ''scroll_up'')] ''turn volume up''
     = Some ''volume_up''
   \<and> process_command [(''up'', ''scroll_up''), (''volume up'', ''volume_up'')] ''turn volume up''
     = Some ''scroll_up''
   \<and> process_command [(''volume up'', ''volume_up''), (''up'', ''scroll_up'')] ''louder'' = None
   \<and> listen_for_command [(''volume up'', ''volume_up''), (''up'', ''scroll_up'')]
        (Recognized ''Turn Volume UP'') = Some ''volume_up''"
proof -
  let ?m = "[(''volume up'', ''volume_up''), (''up'', ''scroll_up'')]"
  let ?m' = "[(''up'', ''scroll_up''), (''volume up'', ''volume_up'')]"
  have s1: "sublist ''volume up'' ''turn volume up''" and s2: "sublist ''up'' ''turn volume up''"
    and n1: "\<not> sublist ''volume up'' ''louder''" and n2: "\<not> sublist ''up'' ''louder''"
    by code_simp+
  have h1: "\<exists>before p after. ?m = before @ (p, ''volume_up'') # after
      \<and> sublist p ''turn volume up'' \<and> (\<forall>(q, d) \<in> set before. \<not> sublist q ''turn volume up'')"
    using s1 by (intro exI[of _ "[]"] exI[of _ "''volume up''"] exI[of _ "[(''up'', ''scroll_up'')]"]) simp
  have h2: "\<exists>before p after. ?m' = before @ (p, ''scroll_up'') # after
      \<and> sublist p ''turn volume up'' \<and> (\<forall>(q, d) \<in> set before. \<not> sublist q ''turn volume up'')"
    using s2 by (intro exI[of _ "[]"] exI[of _ "''up''"] exI[of _ "[(''volume up'', ''volume_up'')]"]) simp
  have h3: "\<forall>(p, c) \<in> set ?m. \<not> sublist p ''louder''"
    using n1 n2 by simp
  have low: "lower ''Turn Volume UP'' = ''turn volume up''"
    by code_simp
  from process_command_first_match [of ?m "''turn volume up''"] h1
  have r1: "process_command ?m ''turn volume up'' = Some ''volume_up''" by blast
  from process_command_first_match [of ?m' "''turn volume up''"] h2
  have r2: "process_command ?m' ''turn volume up'' = Some ''scroll_up''" by blast
  from process_command_first_match [of ?m "''louder''"] h3
  have r3: "process_command ?m ''louder'' = None" by blast
  from process_command_first_match [of ?m "''Turn Volume UP''"] low r1
  have r4: "listen_for_command ?m (Recognized ''Turn Volume UP'') = Some ''volume_up''"
    by simp
  from r1 r2 r3 r4 show ?thesis by simp
qed

text \<open>
  The first match wins on the shipped table as well: \<^verbatim>\<open>'mute'\<close> was inserted before
  \<^verbatim>\<open>'unmute'\<close> and is a substring of it.
\<close>

lemma unmute_resolves_to_mute:
  "process_command default_voice_commands ''unmute'' = Some ''mute_audio''"
  by code_simp

end
